theory Spec2Isabelle
  imports Complex_Main
begin

section \<open>Data model of the NetworkVisualization component\<close>

text \<open>
  JavaScript numbers are modelled as exact reals (\<open>Math.cos\<close>, \<open>Math.sin\<close> and
  \<open>Math.PI\<close> as \<^term>\<open>cos\<close>, \<^term>\<open>sin\<close> and \<^term>\<open>pi\<close>), so rounding of IEEE doubles is
  outside the model. An \<open>id\<close> is a string or an integer number: both occur as keys of the
  positions \<open>Map\<close>, where a number and the string of its digits are different keys.
\<close>

datatype ident = NumId int | StrId string

record mutual =
  m_id :: ident
  m_name :: string

text \<open>
  A field the code reads with \<open>||\<close> or \<open>?.\<close> may be missing: \<open>interactions\<close> and
  \<open>mutualConnections\<close> are options, \<open>None\<close> for \<open>undefined\<close>.
\<close>

record connection =
  c_id :: ident
  c_name :: string
  interactions :: "real option"
  mutualConnections :: "mutual list option"

text \<open>The object \<open>{ x: ..., y: ... }\<close>.\<close>

record point =
  pos_x :: real
  pos_y :: real

type_synonym positions = "ident \<rightharpoonup> point"

text \<open>The values that successive calls of \<open>Math.random()\<close> return, by call number.\<close>

type_synonym random_source = "nat \<Rightarrow> real"

record mouse_event =
  clientX :: real
  clientY :: real

text \<open>The five \<open>useState\<close> cells of the component.\<close>

record ui_state =
  zoom :: real
  pan :: point
  isDragging :: bool
  dragStart :: point
  hoveredConnection :: "ident option"

definition initial_ui :: ui_state where
  "initial_ui =
     \<lparr>zoom = 1, pan = \<lparr>pos_x = 0, pos_y = 0\<rparr>, isDragging = False,
      dragStart = \<lparr>pos_x = 0, pos_y = 0\<rparr>, hoveredConnection = None\<rparr>"

section \<open>String conversion in template literals\<close>

fun natToString :: "nat \<Rightarrow> string" where
  "natToString n =
     (if n < 10 then [''0123456789'' ! n]
      else natToString (n div 10) @ [''0123456789'' ! (n mod 10)])"

declare natToString.simps [simp del]

definition intToString :: "int \<Rightarrow> string" where
  "intToString i = (if i < 0 then CHR ''-'' # natToString (nat (- i)) else natToString (nat i))"

fun toString :: "ident \<Rightarrow> string" where
  "toString (NumId i) = intToString i"
| "toString (StrId s) = s"

text \<open>The key \<open>`${connection.id}-${mutual.id}`\<close>.\<close>

definition mutualKey :: "ident \<Rightarrow> ident \<Rightarrow> ident" where
  "mutualKey cid mid = StrId (toString cid @ ''-'' @ toString mid)"

section \<open>Layout: calculateNodePositions\<close>

text \<open>\<open>Array.prototype.forEach\<close> with the element and its index, threading the state the
  callback mutates.\<close>

fun forEachFrom :: "nat \<Rightarrow> ('a \<Rightarrow> nat \<Rightarrow> 's \<Rightarrow> 's) \<Rightarrow> 'a list \<Rightarrow> 's \<Rightarrow> 's" where
  "forEachFrom i f [] s = s"
| "forEachFrom i f (a # as) s = forEachFrom (Suc i) f as (f a i s)"

definition forEach :: "('a \<Rightarrow> nat \<Rightarrow> 's \<Rightarrow> 's) \<Rightarrow> 'a list \<Rightarrow> 's \<Rightarrow> 's" where
  "forEach f as s = forEachFrom 0 f as s"

definition centerX :: real where
  "centerX = 400"

definition centerY :: real where
  "centerY = 300"

text \<open>The object \<open>{ x: centerX + Math.cos(angle) * radius, y: centerY + Math.sin(angle) * radius }\<close>
  that every branch stores.\<close>

definition around_center :: "real \<Rightarrow> real \<Rightarrow> point" where
  "around_center angle radius =
     \<lparr>pos_x = centerX + cos angle * radius, pos_y = centerY + sin angle * radius\<rparr>"

definition treeMutual :: "ident \<Rightarrow> real \<Rightarrow> mutual \<Rightarrow> nat \<Rightarrow> positions \<Rightarrow> positions" where
  "treeMutual cid angle mutual mIndex positions =
     (let subAngle = angle + (real mIndex - 1) * 0.3;
          subRadius = 250
      in positions(mutualKey cid (m_id mutual) \<mapsto> around_center subAngle subRadius))"

definition treeConnection :: "nat \<Rightarrow> connection \<Rightarrow> nat \<Rightarrow> positions \<Rightarrow> positions" where
  "treeConnection len connection index positions =
     (let angle = (real index / real len) * 2 * pi;
          radius = 150;
          positions1 = positions(c_id connection \<mapsto> around_center angle radius)
      in case mutualConnections connection of
           None \<Rightarrow> positions1
         | Some ms \<Rightarrow> forEach (treeMutual (c_id connection) angle) ms positions1)"

definition circularConnection :: "nat \<Rightarrow> connection \<Rightarrow> nat \<Rightarrow> positions \<Rightarrow> positions" where
  "circularConnection len connection index positions =
     (let angle = (real index / real len) * 2 * pi;
          radius = 200
      in positions(c_id connection \<mapsto> around_center angle radius))"

text \<open>The force branch calls \<open>Math.random()\<close> twice for each connection; the state carries
  the number of calls made so far.\<close>

definition forceConnection ::
  "random_source \<Rightarrow> connection \<Rightarrow> nat \<Rightarrow> positions \<times> nat \<Rightarrow> positions \<times> nat" where
  "forceConnection random connection index st =
     (let positions = fst st;
          k = snd st;
          angle = random k * 2 * pi;
          radius = 100 + random (Suc k) * 150
      in (positions(c_id connection \<mapsto> around_center angle radius), Suc (Suc k)))"

definition calculateNodePositions ::
  "string \<Rightarrow> connection list \<Rightarrow> random_source \<Rightarrow> positions" where
  "calculateNodePositions viewMode connections random =
     (let positions = Map.empty(StrId ''user'' \<mapsto> \<lparr>pos_x = centerX, pos_y = centerY\<rparr>)
      in if viewMode = ''tree'' then
           forEach (treeConnection (length connections)) connections positions
         else if viewMode = ''circular'' then
           forEach (circularConnection (length connections)) connections positions
         else
           fst (forEach (forceConnection random) connections (positions, 0)))"

section \<open>Interaction handlers\<close>

definition handleMouseDown :: "mouse_event \<Rightarrow> ui_state \<Rightarrow> ui_state" where
  "handleMouseDown e s =
     s\<lparr>isDragging := True,
       dragStart := \<lparr>pos_x = clientX e - pos_x (pan s), pos_y = clientY e - pos_y (pan s)\<rparr>\<rparr>"

definition handleMouseMove :: "mouse_event \<Rightarrow> ui_state \<Rightarrow> ui_state" where
  "handleMouseMove e s =
     (if isDragging s then
        s\<lparr>pan := \<lparr>pos_x = clientX e - pos_x (dragStart s),
                  pos_y = clientY e - pos_y (dragStart s)\<rparr>\<rparr>
      else s)"

definition handleMouseUp :: "ui_state \<Rightarrow> ui_state" where
  "handleMouseUp s = s\<lparr>isDragging := False\<rparr>"

definition handleZoom :: "string \<Rightarrow> ui_state \<Rightarrow> ui_state" where
  "handleZoom direction s =
     (let newZoom = (if direction = ''in'' then min (zoom s * 1.2) 3 else max (zoom s / 1.2) 0.3)
      in s\<lparr>zoom := newZoom\<rparr>)"

definition handleConnectionHover :: "ident option \<Rightarrow> ui_state \<Rightarrow> ui_state" where
  "handleConnectionHover connectionId s = s\<lparr>hoveredConnection := connectionId\<rparr>"

definition resetView :: "ui_state \<Rightarrow> ui_state" where
  "resetView s = s\<lparr>zoom := 1, pan := \<lparr>pos_x = 0, pos_y = 0\<rparr>\<rparr>"

text \<open>The expression \<open>connection.interactions || 0\<close>.\<close>

definition interactionsOrZero :: "connection \<Rightarrow> real" where
  "interactionsOrZero connection = (case interactions connection of None \<Rightarrow> 0 | Some v \<Rightarrow> v)"

definition getConnectionStrength :: "connection \<Rightarrow> string" where
  "getConnectionStrength connection =
     (let n = interactionsOrZero connection
      in if n > 50 then ''strong'' else if n > 20 then ''medium'' else ''weak'')"

definition getNodeColor :: "connection \<Rightarrow> string" where
  "getNodeColor connection =
     (let strength = getConnectionStrength connection
      in if strength = ''strong'' then ''#0A66C2''
         else if strength = ''medium'' then ''#42B883''
         else ''#65676B'')"

text \<open>The three legend rows, in document order.\<close>

definition legendLabels :: "string list" where
  "legendLabels =
     [''Strong (50+ interactions)'', ''Medium (20-50 interactions)'', ''Weak (<20 interactions)'']"

section \<open>The rendered scene and its handlers\<close>

text \<open>What a click handler passes to \<open>onNodeSelect\<close>: a connection object, a mutual
  connection object, or an object literal \<open>{ id: ..., name: ... }\<close>.\<close>

datatype node = ConnectionObj connection | MutualObj mutual | PlainObj ident string

text \<open>What leaves the component: calls of the two callback props, and \<open>console.log\<close>.\<close>

datatype effect = OnNodeSelect node | OnViewModeChange string | ConsoleLog string

text \<open>The bodies of the \<open>onClick\<close> arrow functions of the JSX.\<close>

datatype action =
    ChangeViewMode string
  | Zoom string
  | ResetView
  | NodeClick node
  | Export

datatype element =
    ViewModeButton string
  | ZoomInButton
  | ZoomOutButton
  | ResetButton
  | UserCircle
  | ConnectionCircle connection
  | ConnectionLabel connection
  | MutualCircle connection mutual
  | MutualLabel connection mutual
  | ExportButton

definition viewModes :: "(string \<times> string \<times> string) list" where
  "viewModes =
     [(''tree'', ''Tree View'', ''GitBranch''),
      (''force'', ''Force Graph'', ''Zap''),
      (''circular'', ''Circular'', ''Circle'')]"

definition connectionNodeHandlers :: "positions \<Rightarrow> connection \<Rightarrow> (element \<times> action) list" where
  "connectionNodeHandlers nodePos connection =
     (case nodePos (c_id connection) of
        None \<Rightarrow> []
      | Some position \<Rightarrow>
          [(ConnectionCircle connection, NodeClick (ConnectionObj connection)),
           (ConnectionLabel connection, NodeClick (ConnectionObj connection))])"

definition mutualNodeHandlers :: "positions \<Rightarrow> connection \<Rightarrow> (element \<times> action) list" where
  "mutualNodeHandlers nodePos connection =
     (case mutualConnections connection of
        None \<Rightarrow> []
      | Some ms \<Rightarrow>
          concat (map (\<lambda>mutual.
            case nodePos (mutualKey (c_id connection) (m_id mutual)) of
              None \<Rightarrow> []
            | Some position \<Rightarrow>
                [(MutualCircle connection mutual, NodeClick (MutualObj mutual)),
                 (MutualLabel connection mutual, NodeClick (MutualObj mutual))]) ms))"

text \<open>Every element of the returned JSX that has an \<open>onClick\<close>, in document order.\<close>

definition onClickHandlers :: "connection list \<Rightarrow> positions \<Rightarrow> (element \<times> action) list" where
  "onClickHandlers conns nodePos =
     map (\<lambda>mode. (ViewModeButton (fst mode), ChangeViewMode (fst mode))) viewModes
     @ [(ZoomInButton, Zoom ''in''), (ZoomOutButton, Zoom ''out''), (ResetButton, ResetView)]
     @ [(UserCircle, NodeClick (PlainObj (StrId ''user'') ''You''))]
     @ concat (map (connectionNodeHandlers nodePos) conns)
     @ concat (map (mutualNodeHandlers nodePos) conns)
     @ [(ExportButton, Export)]"

text \<open>The component between two events: its props, its state cells, the positions of the
  last render and the effects it has emitted so far.\<close>

record world =
  connections :: "connection list"
  viewMode :: string
  ui :: ui_state
  nodePositions :: positions
  effects :: "effect list"

definition handleNodeClick :: "node \<Rightarrow> world \<Rightarrow> world" where
  "handleNodeClick n w = w\<lparr>effects := effects w @ [OnNodeSelect n]\<rparr>"

fun perform :: "action \<Rightarrow> world \<Rightarrow> world" where
  "perform (ChangeViewMode m) w = w\<lparr>effects := effects w @ [OnViewModeChange m]\<rparr>"
| "perform (Zoom direction) w = w\<lparr>ui := handleZoom direction (ui w)\<rparr>"
| "perform ResetView w = w\<lparr>ui := resetView (ui w)\<rparr>"
| "perform (NodeClick n) w = handleNodeClick n w"
| "perform Export w = w\<lparr>effects := effects w @ [ConsoleLog ''Export network data'']\<rparr>"

text \<open>The events the component reacts to. A render carries the values \<open>Math.random()\<close>
  returns during it. The four listeners on the \<open>svg\<close> element are registered again
  whenever \<open>isDragging\<close>, \<open>dragStart\<close> or \<open>pan\<close> changes, which are the only cells
  they read, so each event is handled against the current state.\<close>

datatype event =
    Render random_source
  | Click action
  | NodeMouseEnter connection
  | NodeMouseLeave
  | SvgMouseDown mouse_event
  | SvgMouseMove mouse_event
  | SvgMouseUp
  | SvgMouseLeave

fun step :: "event \<Rightarrow> world \<Rightarrow> world" where
  "step (Render random) w =
     w\<lparr>nodePositions := calculateNodePositions (viewMode w) (connections w) random\<rparr>"
| "step (Click a) w = perform a w"
| "step (NodeMouseEnter connection) w =
     w\<lparr>ui := handleConnectionHover (Some (c_id connection)) (ui w)\<rparr>"
| "step NodeMouseLeave w = w\<lparr>ui := handleConnectionHover None (ui w)\<rparr>"
| "step (SvgMouseDown e) w = w\<lparr>ui := handleMouseDown e (ui w)\<rparr>"
| "step (SvgMouseMove e) w = w\<lparr>ui := handleMouseMove e (ui w)\<rparr>"
| "step SvgMouseUp w = w\<lparr>ui := handleMouseUp (ui w)\<rparr>"
| "step SvgMouseLeave w = w\<lparr>ui := handleMouseUp (ui w)\<rparr>"

fun run :: "event list \<Rightarrow> world \<Rightarrow> world" where
  "run [] w = w"
| "run (ev # evs) w = run evs (step ev w)"

text \<open>The component as mounted: initial state cells, nothing rendered or emitted yet.\<close>

definition mount :: "connection list \<Rightarrow> string \<Rightarrow> world" where
  "mount conns mode =
     \<lparr>connections = conns, viewMode = mode, ui = initial_ui,
      nodePositions = Map.empty, effects = []\<rparr>"

section \<open>Vocabulary of the properties\<close>

text \<open>The list \<open>connection.mutualConnections\<close> when present, the empty list otherwise:
  what \<open>?.forEach\<close> iterates over.\<close>

definition mutualsOf :: "connection \<Rightarrow> mutual list" where
  "mutualsOf c = (case mutualConnections c of None \<Rightarrow> [] | Some ms \<Rightarrow> ms)"

text \<open>The keys the tree branch writes for one connection after its own id, and all keys
  it writes for a list of connections, in the order of the writes.\<close>

definition mutualKeys :: "connection \<Rightarrow> ident list" where
  "mutualKeys c = map (\<lambda>m. mutualKey (c_id c) (m_id m)) (mutualsOf c)"

definition treeKeys :: "connection list \<Rightarrow> ident list" where
  "treeKeys cs = concat (map (\<lambda>c. c_id c # mutualKeys c) cs)"

text \<open>The node an element of the scene depicts, if it depicts one.\<close>

fun depicts :: "element \<Rightarrow> node option" where
  "depicts UserCircle = Some (PlainObj (StrId ''user'') ''You'')"
| "depicts (ConnectionCircle c) = Some (ConnectionObj c)"
| "depicts (ConnectionLabel c) = Some (ConnectionObj c)"
| "depicts (MutualCircle c m) = Some (MutualObj m)"
| "depicts (MutualLabel c m) = Some (MutualObj m)"
| "depicts (ViewModeButton v) = None"
| "depicts ZoomInButton = None"
| "depicts ZoomOutButton = None"
| "depicts ResetButton = None"
| "depicts ExportButton = None"

fun is_callback :: "effect \<Rightarrow> bool" where
  "is_callback (OnNodeSelect n) = True"
| "is_callback (OnViewModeChange v) = True"
| "is_callback (ConsoleLog msg) = False"

fun is_mouse_down :: "event \<Rightarrow> bool" where
  "is_mouse_down (SvgMouseDown e) = True"
| "is_mouse_down ev = False"

section \<open>Sample inputs\<close>

definition bob :: mutual where
  "bob = \<lparr>m_id = NumId 7, m_name = ''Bob Stone''\<rparr>"

definition carol :: mutual where
  "carol = \<lparr>m_id = NumId 8, m_name = ''Carol Diaz''\<rparr>"

definition alice :: connection where
  "alice =
     \<lparr>c_id = NumId 1, c_name = ''Alice Chen'', interactions = Some 50,
      mutualConnections = Some [bob, carol]\<rparr>"

definition dave :: connection where
  "dave =
     \<lparr>c_id = NumId 2, c_name = ''Dave Moss'', interactions = None, mutualConnections = None\<rparr>"

text \<open>A second connection carrying the id of \<^term>\<open>alice\<close>.\<close>

definition alice_twin :: connection where
  "alice_twin =
     \<lparr>c_id = NumId 1, c_name = ''Alice Twin'', interactions = Some 20, mutualConnections = None\<rparr>"

text \<open>A connection whose id is the key of the central node.\<close>

definition user_named :: connection where
  "user_named =
     \<lparr>c_id = StrId ''user'', c_name = ''Uma User'', interactions = Some 51,
      mutualConnections = None\<rparr>"

definition random_zero :: random_source where
  "random_zero k = 0"

definition random_half :: random_source where
  "random_half k = 1 / 2"

definition press :: mouse_event where
  "press = \<lparr>clientX = 10, clientY = 20\<rparr>"

definition drag_to :: mouse_event where
  "drag_to = \<lparr>clientX = 15, clientY = 40\<rparr>"

definition sample_session :: "event list" where
  "sample_session =
     [Render random_half, Click (Zoom ''in''), SvgMouseDown \<lparr>clientX = 10, clientY = 20\<rparr>,
      SvgMouseMove \<lparr>clientX = 15, clientY = 40\<rparr>, SvgMouseUp, NodeMouseEnter alice,
      Click (NodeClick (ConnectionObj alice)), Click ResetView]"

section \<open>Properties of the loops, the handlers and the scene\<close>

lemma treeMutual_frame:
  "k \<notin> set (map (\<lambda>m. mutualKey cid (m_id m)) ms) \<Longrightarrow>
   forEachFrom j0 (treeMutual cid a) ms s k = s k"
  by (induction ms arbitrary: j0 s) (auto simp: treeMutual_def)

lemma treeMutual_hit:
  "j < length ms \<Longrightarrow> distinct (map (\<lambda>m. mutualKey cid (m_id m)) ms) \<Longrightarrow>
   forEachFrom j0 (treeMutual cid a) ms s (mutualKey cid (m_id (ms ! j)))
     = Some (around_center (a + (real (j0 + j) - 1) * 0.3) 250)"
proof (induction ms arbitrary: j j0 s)
  case Nil
  then show ?case by simp
next
  case (Cons m ms)
  show ?case
  proof (cases j)
    case 0
    with Cons.prems show ?thesis
      by (simp add: treeMutual_frame) (simp add: treeMutual_def)
  next
    case (Suc j')
    with Cons.prems Cons.IH [of j' "Suc j0"] show ?thesis
      by simp
  qed
qed

lemma treeConnection_frame:
  "k \<noteq> c_id c \<Longrightarrow> k \<notin> set (mutualKeys c) \<Longrightarrow> treeConnection n c i s k = s k"
proof (cases "mutualConnections c")
  case None
  assume "k \<noteq> c_id c"
  with None show ?thesis
    by (simp add: treeConnection_def)
next
  case (Some ms)
  assume "k \<noteq> c_id c" and "k \<notin> set (mutualKeys c)"
  with Some show ?thesis
    by (simp add: treeConnection_def mutualKeys_def mutualsOf_def forEach_def Let_def
        treeMutual_frame)
qed

lemma treeConnection_own:
  "c_id c \<notin> set (mutualKeys c) \<Longrightarrow>
   treeConnection n c i s (c_id c) = Some (around_center (real i / real n * 2 * pi) 150)"
proof (cases "mutualConnections c")
  case None
  then show ?thesis
    by (simp add: treeConnection_def)
next
  case (Some ms)
  assume "c_id c \<notin> set (mutualKeys c)"
  with Some show ?thesis
    by (simp add: treeConnection_def mutualKeys_def mutualsOf_def forEach_def Let_def
        treeMutual_frame)
qed

lemma treeConnection_mutual:
  "j < length (mutualsOf c) \<Longrightarrow> distinct (mutualKeys c) \<Longrightarrow>
   treeConnection n c i s (mutualKey (c_id c) (m_id (mutualsOf c ! j)))
     = Some (around_center (real i / real n * 2 * pi + (real j - 1) * 0.3) 250)"
proof (cases "mutualConnections c")
  case None
  assume "j < length (mutualsOf c)"
  with None show ?thesis
    by (simp add: mutualsOf_def)
next
  case (Some ms)
  assume "j < length (mutualsOf c)" and "distinct (mutualKeys c)"
  with Some have "j < length ms" and "distinct (map (\<lambda>m. mutualKey (c_id c) (m_id m)) ms)"
    by (simp_all add: mutualKeys_def mutualsOf_def)
  from treeMutual_hit [OF this, of 0] Some show ?thesis
    by (simp add: treeConnection_def mutualsOf_def forEach_def Let_def)
qed

lemma tree_frame:
  "k \<notin> set (treeKeys cs) \<Longrightarrow> forEachFrom i0 (treeConnection n) cs s k = s k"
  by (induction cs arbitrary: i0 s) (auto simp: treeKeys_def treeConnection_frame)

lemma tree_hit_connection:
  "i < length cs \<Longrightarrow> distinct (treeKeys cs) \<Longrightarrow>
   forEachFrom i0 (treeConnection n) cs s (c_id (cs ! i))
     = Some (around_center (real (i0 + i) / real n * 2 * pi) 150)"
proof (induction cs arbitrary: i i0 s)
  case Nil
  then show ?case by simp
next
  case (Cons c cs)
  have tail: "treeKeys (c # cs) = c_id c # mutualKeys c @ treeKeys cs"
    by (simp add: treeKeys_def)
  show ?case
  proof (cases i)
    case 0
    from Cons.prems(2) have "c_id c \<notin> set (treeKeys cs)" and "c_id c \<notin> set (mutualKeys c)"
      by (auto simp: tail)
    with 0 show ?thesis
      by (simp add: tree_frame treeConnection_own)
  next
    case (Suc i')
    from Cons.prems(2) have "distinct (treeKeys cs)"
      by (simp add: tail)
    with Suc Cons.prems(1) Cons.IH [of i' "Suc i0"] show ?thesis
      by simp
  qed
qed

lemma tree_hit_mutual:
  "i < length cs \<Longrightarrow> distinct (treeKeys cs) \<Longrightarrow> j < length (mutualsOf (cs ! i)) \<Longrightarrow>
   forEachFrom i0 (treeConnection n) cs s (mutualKey (c_id (cs ! i)) (m_id (mutualsOf (cs ! i) ! j)))
     = Some (around_center (real (i0 + i) / real n * 2 * pi + (real j - 1) * 0.3) 250)"
proof (induction cs arbitrary: i i0 s)
  case Nil
  then show ?case by simp
next
  case (Cons c cs)
  have tail: "treeKeys (c # cs) = c_id c # mutualKeys c @ treeKeys cs"
    by (simp add: treeKeys_def)
  show ?case
  proof (cases i)
    case 0
    with Cons.prems(3) have j: "j < length (mutualsOf c)"
      by simp
    then have "mutualKey (c_id c) (m_id (mutualsOf c ! j)) \<in> set (mutualKeys c)"
      by (simp add: mutualKeys_def)
    with Cons.prems(2) have "mutualKey (c_id c) (m_id (mutualsOf c ! j)) \<notin> set (treeKeys cs)"
      and "distinct (mutualKeys c)"
      by (auto simp: tail)
    with 0 j show ?thesis
      by (simp add: tree_frame treeConnection_mutual)
  next
    case (Suc i')
    from Cons.prems(2) have "distinct (treeKeys cs)"
      by (simp add: tail)
    with Suc Cons.prems(1,3) Cons.IH [of i' "Suc i0"] show ?thesis
      by simp
  qed
qed

lemma circular_frame:
  "k \<notin> set (map c_id cs) \<Longrightarrow> forEachFrom i0 (circularConnection n) cs s k = s k"
  by (induction cs arbitrary: i0 s) (auto simp: circularConnection_def)

lemma circular_hit:
  "i < length cs \<Longrightarrow> distinct (map c_id cs) \<Longrightarrow>
   forEachFrom i0 (circularConnection n) cs s (c_id (cs ! i))
     = Some (around_center (real (i0 + i) / real n * 2 * pi) 200)"
proof (induction cs arbitrary: i i0 s)
  case Nil
  then show ?case by simp
next
  case (Cons c cs)
  show ?case
  proof (cases i)
    case 0
    with Cons.prems show ?thesis
      by (simp add: circular_frame) (simp add: circularConnection_def)
  next
    case (Suc i')
    with Cons.prems Cons.IH [of i' "Suc i0"] show ?thesis
      by simp
  qed
qed

lemma force_frame:
  "k \<notin> set (map c_id cs) \<Longrightarrow> fst (forEachFrom i0 (forceConnection r) cs st) k = fst st k"
  by (induction cs arbitrary: i0 st) (auto simp: forceConnection_def Let_def)

lemma mutualKey_not_user: "mutualKey a b \<noteq> StrId ''user''"
proof
  assume "mutualKey a b = StrId ''user''"
  then have eq: "toString a @ ''-'' @ toString b = ''user''"
    by (simp add: mutualKey_def)
  have "CHR ''-'' \<in> set (toString a @ ''-'' @ toString b)"
    by simp
  then have "CHR ''-'' \<in> set ''user''"
    by (simp only: eq)
  then show False
    by simp
qed

lemma treeMutual_dom: "dom s \<subseteq> dom (forEachFrom j0 (treeMutual cid a) ms s)"
proof (induction ms arbitrary: j0 s)
  case Nil
  then show ?case by simp
next
  case (Cons m ms)
  have "dom s \<subseteq> dom (treeMutual cid a m j0 s)"
    by (auto simp: treeMutual_def)
  also have "\<dots> \<subseteq> dom (forEachFrom (Suc j0) (treeMutual cid a) ms (treeMutual cid a m j0 s))"
    by (rule Cons.IH)
  finally show ?case by simp
qed

lemma treeConnection_dom: "insert (c_id c) (dom s) \<subseteq> dom (treeConnection n c i s)"
proof (cases "mutualConnections c")
  case None
  then show ?thesis
    by (auto simp: treeConnection_def)
next
  case (Some ms)
  let ?s1 = "s(c_id c \<mapsto> around_center (real i / real n * 2 * pi) 150)"
  have "insert (c_id c) (dom s) \<subseteq> dom ?s1"
    by auto
  also have "\<dots> \<subseteq> dom (forEachFrom 0 (treeMutual (c_id c) (real i / real n * 2 * pi)) ms ?s1)"
    by (rule treeMutual_dom)
  finally show ?thesis
    using Some by (simp add: treeConnection_def forEach_def Let_def)
qed

lemma tree_dom: "dom s \<union> c_id ` set cs \<subseteq> dom (forEachFrom i0 (treeConnection n) cs s)"
proof (induction cs arbitrary: i0 s)
  case Nil
  then show ?case by simp
next
  case (Cons c cs)
  have "dom s \<union> c_id ` set (c # cs) \<subseteq> dom (treeConnection n c i0 s) \<union> c_id ` set cs"
    using treeConnection_dom [of c s n i0] by auto
  also have "\<dots> \<subseteq> dom (forEachFrom (Suc i0) (treeConnection n) cs (treeConnection n c i0 s))"
    by (rule Cons.IH)
  finally show ?case by simp
qed

lemma circularConnection_dom: "insert (c_id c) (dom s) \<subseteq> dom (circularConnection n c i s)"
  by (auto simp: circularConnection_def)

lemma circular_dom: "dom s \<union> c_id ` set cs \<subseteq> dom (forEachFrom i0 (circularConnection n) cs s)"
proof (induction cs arbitrary: i0 s)
  case Nil
  then show ?case by simp
next
  case (Cons c cs)
  have "dom s \<union> c_id ` set (c # cs) \<subseteq> dom (circularConnection n c i0 s) \<union> c_id ` set cs"
    using circularConnection_dom [of c s n i0] by auto
  also have "\<dots> \<subseteq> dom (forEachFrom (Suc i0) (circularConnection n) cs (circularConnection n c i0 s))"
    by (rule Cons.IH)
  finally show ?case by simp
qed

lemma forceConnection_dom:
  "insert (c_id c) (dom (fst st)) \<subseteq> dom (fst (forceConnection r c i st))"
  by (auto simp: forceConnection_def Let_def)

lemma force_dom:
  "dom (fst st) \<union> c_id ` set cs \<subseteq> dom (fst (forEachFrom i0 (forceConnection r) cs st))"
proof (induction cs arbitrary: i0 st)
  case Nil
  then show ?case by simp
next
  case (Cons c cs)
  have "dom (fst st) \<union> c_id ` set (c # cs) \<subseteq> dom (fst (forceConnection r c i0 st)) \<union> c_id ` set cs"
    using forceConnection_dom [of c st r i0] by auto
  also have "\<dots> \<subseteq> dom (fst (forEachFrom (Suc i0) (forceConnection r) cs (forceConnection r c i0 st)))"
    by (rule Cons.IH)
  finally show ?case by simp
qed

lemma calc_tree: "calculateNodePositions ''tree'' cs r =
   forEachFrom 0 (treeConnection (length cs)) cs (Map.empty(StrId ''user'' \<mapsto> \<lparr>pos_x = 400, pos_y = 300\<rparr>))"
  by (simp add: calculateNodePositions_def forEach_def centerX_def centerY_def)

lemma calc_circular: "calculateNodePositions ''circular'' cs r =
   forEachFrom 0 (circularConnection (length cs)) cs (Map.empty(StrId ''user'' \<mapsto> \<lparr>pos_x = 400, pos_y = 300\<rparr>))"
  by (simp add: calculateNodePositions_def forEach_def centerX_def centerY_def)

lemma calc_force: "vm \<noteq> ''tree'' \<Longrightarrow> vm \<noteq> ''circular'' \<Longrightarrow> calculateNodePositions vm cs r =
   fst (forEachFrom 0 (forceConnection r) cs (Map.empty(StrId ''user'' \<mapsto> \<lparr>pos_x = 400, pos_y = 300\<rparr>), 0))"
  by (simp add: calculateNodePositions_def forEach_def centerX_def centerY_def)

lemma tree_connection_position:
  "i < length cs \<Longrightarrow> distinct (treeKeys cs) \<Longrightarrow>
   calculateNodePositions ''tree'' cs r (c_id (cs ! i))
     = Some (around_center (real i / real (length cs) * 2 * pi) 150)"
  using tree_hit_connection [of i cs 0 "length cs"] by (simp add: calc_tree)

lemma tree_mutual_position:
  "i < length cs \<Longrightarrow> distinct (treeKeys cs) \<Longrightarrow> j < length (mutualsOf (cs ! i)) \<Longrightarrow>
   calculateNodePositions ''tree'' cs r (mutualKey (c_id (cs ! i)) (m_id (mutualsOf (cs ! i) ! j)))
     = Some (around_center (real i / real (length cs) * 2 * pi + (real j - 1) * 0.3) 250)"
  using tree_hit_mutual [of i cs j 0 "length cs"] by (simp add: calc_tree)

lemma circular_connection_position:
  "i < length cs \<Longrightarrow> distinct (map c_id cs) \<Longrightarrow>
   calculateNodePositions ''circular'' cs r (c_id (cs ! i))
     = Some (around_center (real i / real (length cs) * 2 * pi) 200)"
  using circular_hit [of i cs 0 "length cs"] by (simp add: calc_circular)

lemma alice_dave_keys: "treeKeys [alice, dave] = [NumId 1, StrId ''1-7'', StrId ''1-8'', NumId 2]"
  by (simp add: treeKeys_def mutualKeys_def mutualsOf_def mutualKey_def alice_def dave_def bob_def
      carol_def intToString_def natToString.simps)

lemma treeMutual_keys_dom:
  "(\<lambda>m. mutualKey cid (m_id m)) ` set ms \<subseteq> dom (forEachFrom j0 (treeMutual cid a) ms s)"
proof (induction ms arbitrary: j0 s)
  case Nil
  then show ?case by simp
next
  case (Cons m ms)
  have "mutualKey cid (m_id m) \<in> dom (treeMutual cid a m j0 s)"
    by (simp add: treeMutual_def)
  with treeMutual_dom [of "treeMutual cid a m j0 s" "Suc j0" cid a ms]
  have "mutualKey cid (m_id m) \<in> dom (forEachFrom (Suc j0) (treeMutual cid a) ms (treeMutual cid a m j0 s))"
    by blast
  with Cons.IH [of "Suc j0" "treeMutual cid a m j0 s"] show ?case
    by simp
qed

lemma treeConnection_keys_dom: "set (mutualKeys c) \<subseteq> dom (treeConnection n c i s)"
proof (cases "mutualConnections c")
  case None
  then show ?thesis
    by (simp add: mutualKeys_def mutualsOf_def)
next
  case (Some ms)
  with treeMutual_keys_dom [of "c_id c" ms 0 "real i / real n * 2 * pi"
      "s(c_id c \<mapsto> around_center (real i / real n * 2 * pi) 150)"]
  show ?thesis
    by (simp add: treeConnection_def forEach_def Let_def mutualKeys_def mutualsOf_def)
qed

lemma tree_keys_dom: "set (treeKeys cs) \<subseteq> dom (forEachFrom i0 (treeConnection n) cs s)"
proof (induction cs arbitrary: i0 s)
  case Nil
  then show ?case by (simp add: treeKeys_def)
next
  case (Cons c cs)
  let ?s1 = "treeConnection n c i0 s"
  have keys: "set (treeKeys (c # cs)) = insert (c_id c) (set (mutualKeys c)) \<union> set (treeKeys cs)"
    by (simp add: treeKeys_def)
  have "insert (c_id c) (set (mutualKeys c)) \<subseteq> dom ?s1"
    using treeConnection_dom [of c s n i0] treeConnection_keys_dom [of c n i0 s] by blast
  also have "\<dots> \<subseteq> dom (forEachFrom (Suc i0) (treeConnection n) cs ?s1)"
    using tree_dom [of ?s1 cs "Suc i0" n] by blast
  finally have "insert (c_id c) (set (mutualKeys c)) \<subseteq> dom (forEachFrom (Suc i0) (treeConnection n) cs ?s1)" .
  with Cons.IH [of "Suc i0" ?s1] show ?case
    by (simp add: keys)
qed

lemma user_not_tree_key: "StrId ''user'' \<notin> c_id ` set cs \<Longrightarrow> StrId ''user'' \<notin> set (treeKeys cs)"
  using mutualKey_not_user by (fastforce simp: treeKeys_def mutualKeys_def)

lemma calc_dom: "insert (StrId ''user'') (c_id ` set cs) \<subseteq> dom (calculateNodePositions vm cs r)"
proof -
  let ?s = "Map.empty(StrId ''user'' \<mapsto> \<lparr>pos_x = 400, pos_y = 300\<rparr>) :: positions"
  have s: "insert (StrId ''user'') (c_id ` set cs) = dom ?s \<union> c_id ` set cs"
    by simp
  consider "vm = ''tree''" | "vm = ''circular''" | "vm \<noteq> ''tree''" "vm \<noteq> ''circular''"
    by blast
  then show ?thesis
  proof cases
    case 1
    with tree_dom [of ?s cs 0 "length cs"] show ?thesis
      by (simp only: s calc_tree)
  next
    case 2
    with circular_dom [of ?s cs 0 "length cs"] show ?thesis
      by (simp only: s calc_circular)
  next
    case 3
    then have eq: "calculateNodePositions vm cs r = fst (forEachFrom 0 (forceConnection r) cs (?s, 0))"
      by (rule calc_force)
    from force_dom [of "(?s, 0)" cs 0 r] show ?thesis
      by (simp only: s eq fst_conv)
  qed
qed

lemma calc_user:
  assumes "StrId ''user'' \<notin> c_id ` set cs"
  shows "calculateNodePositions vm cs r (StrId ''user'') = Some \<lparr>pos_x = 400, pos_y = 300\<rparr>"
proof -
  consider "vm = ''tree''" | "vm = ''circular''" | "vm \<noteq> ''tree''" "vm \<noteq> ''circular''"
    by blast
  then show ?thesis
  proof cases
    case 1
    with tree_frame [OF user_not_tree_key [OF assms]] show ?thesis
      by (simp add: calc_tree)
  next
    case 2
    with circular_frame [of "StrId ''user''" cs] assms show ?thesis
      by (simp add: calc_circular)
  next
    case 3
    with force_frame [of "StrId ''user''" cs] assms show ?thesis
      by (simp add: calc_force)
  qed
qed

lemma calc_empty:
  "calculateNodePositions vm [] r = Map.empty(StrId ''user'' \<mapsto> \<lparr>pos_x = 400, pos_y = 300\<rparr>)"
  by (simp add: calculateNodePositions_def forEach_def centerX_def centerY_def Let_def)

lemma handleZoom_range: "0.3 \<le> zoom (handleZoom d s) \<and> zoom (handleZoom d s) \<le> 3"
  if "0.3 \<le> zoom s" and "zoom s \<le> 3"
  using that by (simp add: handleZoom_def Let_def min_def max_def)

lemma step_zoom_range:
  "0.3 \<le> zoom (ui w) \<Longrightarrow> zoom (ui w) \<le> 3 \<Longrightarrow>
   0.3 \<le> zoom (ui (step ev w)) \<and> zoom (ui (step ev w)) \<le> 3"
proof (cases ev)
  case (Click a)
  assume "0.3 \<le> zoom (ui w)" and "zoom (ui w) \<le> 3"
  with Click handleZoom_range [of "ui w"] show ?thesis
    by (cases a) (simp_all add: resetView_def handleNodeClick_def)
qed (simp_all add: handleConnectionHover_def handleMouseDown_def handleMouseMove_def handleMouseUp_def)

lemma run_zoom_range:
  "0.3 \<le> zoom (ui w) \<Longrightarrow> zoom (ui w) \<le> 3 \<Longrightarrow>
   0.3 \<le> zoom (ui (run evs w)) \<and> zoom (ui (run evs w)) \<le> 3"
proof (induction evs arbitrary: w)
  case Nil
  then show ?case by simp
next
  case (Cons ev evs)
  from step_zoom_range [OF Cons.prems] Cons.IH [of "step ev w"] show ?case
    by simp
qed

lemma perform_props: "connections (perform a w) = connections w \<and> viewMode (perform a w) = viewMode w"
  by (cases a) (simp_all add: handleNodeClick_def)

lemma step_props: "connections (step ev w) = connections w \<and> viewMode (step ev w) = viewMode w"
  by (cases ev) (simp_all add: perform_props)

lemma run_props: "connections (run evs w) = connections w \<and> viewMode (run evs w) = viewMode w"
  by (induction evs arbitrary: w) (simp_all add: step_props)

lemma perform_effects:
  "a \<noteq> Export \<Longrightarrow> \<exists>new. effects (perform a w) = effects w @ new \<and> list_all is_callback new"
  by (cases a) (simp_all add: handleNodeClick_def)

lemma step_effects:
  "ev \<noteq> Click Export \<Longrightarrow> \<exists>new. effects (step ev w) = effects w @ new \<and> list_all is_callback new"
  by (cases ev) (simp_all add: perform_effects)

lemma run_effects:
  "\<forall>ev \<in> set evs. ev \<noteq> Click Export \<Longrightarrow>
   \<exists>new. effects (run evs w) = effects w @ new \<and> list_all is_callback new"
proof (induction evs arbitrary: w)
  case Nil
  then show ?case by simp
next
  case (Cons ev evs)
  from Cons.prems have "ev \<noteq> Click Export" and rest: "\<forall>ev \<in> set evs. ev \<noteq> Click Export"
    by simp_all
  from step_effects [OF this(1), of w] obtain new1
    where n1: "effects (step ev w) = effects w @ new1" "list_all is_callback new1"
    by blast
  from Cons.IH [OF rest, of "step ev w"] obtain new2
    where n2: "effects (run evs (step ev w)) = effects (step ev w) @ new2" "list_all is_callback new2"
    by blast
  from n1 n2 have "effects (run (ev # evs) w) = effects w @ (new1 @ new2)"
    and "list_all is_callback (new1 @ new2)"
    by simp_all
  then show ?case
    by blast
qed

lemma handlers_cases:
  assumes "(el, a) \<in> set (onClickHandlers conns nodePos)"
  shows "(\<exists>v. el = ViewModeButton v \<and> a = ChangeViewMode v)
    \<or> (el = ZoomInButton \<and> a = Zoom ''in'')
    \<or> (el = ZoomOutButton \<and> a = Zoom ''out'')
    \<or> (el = ResetButton \<and> a = ResetView)
    \<or> (el = UserCircle \<and> a = NodeClick (PlainObj (StrId ''user'') ''You''))
    \<or> (\<exists>c \<in> set conns. (el = ConnectionCircle c \<or> el = ConnectionLabel c) \<and> a = NodeClick (ConnectionObj c))
    \<or> (\<exists>c \<in> set conns. \<exists>m \<in> set (mutualsOf c).
          (el = MutualCircle c m \<or> el = MutualLabel c m) \<and> a = NodeClick (MutualObj m))
    \<or> (el = ExportButton \<and> a = Export)"
proof -
  from assms consider
      "(el, a) \<in> set (map (\<lambda>mode. (ViewModeButton (fst mode), ChangeViewMode (fst mode))) viewModes)"
    | "(el, a) \<in> set [(ZoomInButton, Zoom ''in''), (ZoomOutButton, Zoom ''out''), (ResetButton, ResetView)]"
    | "(el, a) = (UserCircle, NodeClick (PlainObj (StrId ''user'') ''You''))"
    | c where "c \<in> set conns" "(el, a) \<in> set (connectionNodeHandlers nodePos c)"
    | c where "c \<in> set conns" "(el, a) \<in> set (mutualNodeHandlers nodePos c)"
    | "(el, a) = (ExportButton, Export)"
    by (auto simp: onClickHandlers_def)
  then show ?thesis
  proof cases
    case 1
    then show ?thesis by auto
  next
    case 2
    then show ?thesis by auto
  next
    case 3
    then show ?thesis by simp
  next
    case 4
    then show ?thesis
      by (auto simp: connectionNodeHandlers_def split: option.splits)
  next
    case 5
    then show ?thesis
      by (auto simp: mutualNodeHandlers_def mutualsOf_def split: option.splits)
  next
    case 6
    then show ?thesis by simp
  qed
qed

lemma connection_circle_rendered:
  "c \<in> set conns \<Longrightarrow> nodePos (c_id c) \<noteq> None \<Longrightarrow>
   (ConnectionCircle c, NodeClick (ConnectionObj c)) \<in> set (onClickHandlers conns nodePos)"
  by (auto simp: onClickHandlers_def connectionNodeHandlers_def)

lemma mutual_circle_rendered:
  "c \<in> set conns \<Longrightarrow> m \<in> set (mutualsOf c) \<Longrightarrow> nodePos (mutualKey (c_id c) (m_id m)) \<noteq> None \<Longrightarrow>
   (MutualCircle c m, NodeClick (MutualObj m)) \<in> set (onClickHandlers conns nodePos)"
proof -
  assume c: "c \<in> set conns" and m: "m \<in> set (mutualsOf c)"
    and pos: "nodePos (mutualKey (c_id c) (m_id m)) \<noteq> None"
  from m obtain ms where ms: "mutualConnections c = Some ms" "m \<in> set ms"
    by (cases "mutualConnections c") (simp_all add: mutualsOf_def)
  with pos have "(MutualCircle c m, NodeClick (MutualObj m)) \<in> set (mutualNodeHandlers nodePos c)"
    by (force simp: mutualNodeHandlers_def)
  with c show ?thesis
    by (auto simp: onClickHandlers_def)
qed

lemma tree_mutual_key_present:
  "c \<in> set conns \<Longrightarrow> m \<in> set (mutualsOf c) \<Longrightarrow>
   calculateNodePositions ''tree'' conns r (mutualKey (c_id c) (m_id m)) \<noteq> None"
proof -
  assume "c \<in> set conns" and "m \<in> set (mutualsOf c)"
  then have "mutualKey (c_id c) (m_id m) \<in> set (treeKeys conns)"
    by (auto simp: treeKeys_def mutualKeys_def)
  with tree_keys_dom [of conns 0 "length conns"] show ?thesis
    by (auto simp: calc_tree)
qed

section \<open>Claims about the layout\<close>

text \<open>
  C1, as the code has it. The positions map keeps the last value written under a key, so
  the closed forms hold when the keys written are pairwise distinct. In tree mode, with
  the connection ids and the composite keys \<open>`${connection.id}-${mutual.id}`\<close> pairwise
  distinct, the connection at index \<open>i\<close> of \<open>n\<close> connections is at
  \<open>(400 + cos(2\<pi>i/n) * 150, 300 + sin(2\<pi>i/n) * 150)\<close> and its mutual connection at
  index \<open>j\<close> is at angle \<open>2\<pi>i/n + (j - 1) * 0.3\<close> with radius 250 around the same
  centre. In circular mode, with the connection ids pairwise distinct, the connection at
  index \<open>i\<close> is at the same angle with radius 200.
\<close>

theorem tree_and_circular_layout:
  "i < length cs \<Longrightarrow>
   (distinct (treeKeys cs) \<longrightarrow>
      calculateNodePositions ''tree'' cs r (c_id (cs ! i)) =
        Some \<lparr>pos_x = 400 + cos (2 * pi * real i / real (length cs)) * 150,
              pos_y = 300 + sin (2 * pi * real i / real (length cs)) * 150\<rparr>
      \<and> (\<forall>j < length (mutualsOf (cs ! i)).
            calculateNodePositions ''tree'' cs r (mutualKey (c_id (cs ! i)) (m_id (mutualsOf (cs ! i) ! j))) =
              Some \<lparr>pos_x = 400 + cos (2 * pi * real i / real (length cs) + (real j - 1) * 0.3) * 250,
                    pos_y = 300 + sin (2 * pi * real i / real (length cs) + (real j - 1) * 0.3) * 250\<rparr>))
   \<and> (distinct (map c_id cs) \<longrightarrow>
        calculateNodePositions ''circular'' cs r (c_id (cs ! i)) =
          Some \<lparr>pos_x = 400 + cos (2 * pi * real i / real (length cs)) * 200,
                pos_y = 300 + sin (2 * pi * real i / real (length cs)) * 200\<rparr>)"
proof -
  assume i: "i < length cs"
  let ?n = "length cs"
  have ang: "real i / real ?n * 2 * pi = 2 * pi * real i / real ?n"
    by simp
  have pt: "around_center (real i / real ?n * 2 * pi) rad =
      \<lparr>pos_x = 400 + cos (2 * pi * real i / real ?n) * rad,
       pos_y = 300 + sin (2 * pi * real i / real ?n) * rad\<rparr>" for rad
    by (simp only: around_center_def centerX_def centerY_def ang)
  have pt_sub: "around_center (real i / real ?n * 2 * pi + d) rad =
      \<lparr>pos_x = 400 + cos (2 * pi * real i / real ?n + d) * rad,
       pos_y = 300 + sin (2 * pi * real i / real ?n + d) * rad\<rparr>" for d rad
    by (simp only: around_center_def centerX_def centerY_def ang)
  have tree_conn: "calculateNodePositions ''tree'' cs r (c_id (cs ! i)) =
        Some \<lparr>pos_x = 400 + cos (2 * pi * real i / real ?n) * 150,
              pos_y = 300 + sin (2 * pi * real i / real ?n) * 150\<rparr>"
    if "distinct (treeKeys cs)"
    using tree_connection_position [OF i that, of r] by (simp only: pt)
  have tree_mut: "calculateNodePositions ''tree'' cs r (mutualKey (c_id (cs ! i)) (m_id (mutualsOf (cs ! i) ! j))) =
              Some \<lparr>pos_x = 400 + cos (2 * pi * real i / real ?n + (real j - 1) * 0.3) * 250,
                    pos_y = 300 + sin (2 * pi * real i / real ?n + (real j - 1) * 0.3) * 250\<rparr>"
    if "distinct (treeKeys cs)" and "j < length (mutualsOf (cs ! i))" for j
    using tree_mutual_position [OF i that, of r] by (simp only: pt_sub)
  have circ: "calculateNodePositions ''circular'' cs r (c_id (cs ! i)) =
          Some \<lparr>pos_x = 400 + cos (2 * pi * real i / real ?n) * 200,
                pos_y = 300 + sin (2 * pi * real i / real ?n) * 200\<rparr>"
    if "distinct (map c_id cs)"
    using circular_connection_position [OF i that, of r] by (simp only: pt)
  from tree_conn tree_mut circ show ?thesis
    by blast
qed

theorem tree_and_circular_layout_witness:
  "calculateNodePositions ''tree'' [alice, dave] random_zero (NumId 1) = Some \<lparr>pos_x = 550, pos_y = 300\<rparr>
   \<and> calculateNodePositions ''tree'' [alice, dave] random_zero (StrId ''1-8'') = Some \<lparr>pos_x = 650, pos_y = 300\<rparr>
   \<and> calculateNodePositions ''circular'' [alice, dave] random_zero (NumId 1) = Some \<lparr>pos_x = 600, pos_y = 300\<rparr>"
proof -
  have len: "(0::nat) < length [alice, dave]"
    by simp
  have d1: "distinct (treeKeys [alice, dave])"
    by (simp add: alice_dave_keys)
  have d2: "distinct (map c_id [alice, dave])"
    by (simp add: alice_def dave_def)
  have j: "1 < length (mutualsOf ([alice, dave] ! 0))"
    by (simp add: mutualsOf_def alice_def)
  have k: "mutualKey (c_id ([alice, dave] ! 0)) (m_id (mutualsOf ([alice, dave] ! 0) ! 1)) = StrId ''1-8''"
    by (simp add: mutualKey_def mutualsOf_def alice_def carol_def intToString_def natToString.simps)
  have c: "c_id ([alice, dave] ! 0) = NumId 1"
    by (simp add: alice_def)
  note t = tree_and_circular_layout [OF len, of random_zero]
  from t d1 have "calculateNodePositions ''tree'' [alice, dave] random_zero (c_id ([alice, dave] ! 0)) = Some \<lparr>pos_x = 550, pos_y = 300\<rparr>"
    by simp
  then have p1: "calculateNodePositions ''tree'' [alice, dave] random_zero (NumId 1) = Some \<lparr>pos_x = 550, pos_y = 300\<rparr>"
    by (simp only: c)
  from t d1 j have "calculateNodePositions ''tree'' [alice, dave] random_zero (mutualKey (c_id ([alice, dave] ! 0)) (m_id (mutualsOf ([alice, dave] ! 0) ! 1))) = Some \<lparr>pos_x = 650, pos_y = 300\<rparr>"
    by simp
  then have p2: "calculateNodePositions ''tree'' [alice, dave] random_zero (StrId ''1-8'') = Some \<lparr>pos_x = 650, pos_y = 300\<rparr>"
    by (simp only: k)
  from t d2 have "calculateNodePositions ''circular'' [alice, dave] random_zero (c_id ([alice, dave] ! 0)) = Some \<lparr>pos_x = 600, pos_y = 300\<rparr>"
    by simp
  then have p3: "calculateNodePositions ''circular'' [alice, dave] random_zero (NumId 1) = Some \<lparr>pos_x = 600, pos_y = 300\<rparr>"
    by (simp only: c)
  from p1 p2 p3 show ?thesis
    by blast
qed

text \<open>
  C1 as stated, for every non-empty list, fails when two connections share an id: the
  second write replaces the first, and the connection at index 0 of two is looked up at
  the position of index 1, \<open>(250, 300)\<close>, not at \<open>(550, 300)\<close>.
\<close>

theorem duplicate_id_counterexample:
  "calculateNodePositions ''tree'' [alice, alice_twin] random_zero (c_id ([alice, alice_twin] ! 0))
     = Some \<lparr>pos_x = 250, pos_y = 300\<rparr>
   \<and> calculateNodePositions ''tree'' [alice, alice_twin] random_zero (c_id ([alice, alice_twin] ! 0))
     \<noteq> Some \<lparr>pos_x = 400 + cos (2 * pi * real 0 / real (length [alice, alice_twin])) * 150,
              pos_y = 300 + sin (2 * pi * real 0 / real (length [alice, alice_twin])) * 150\<rparr>"
  by (simp add: calculateNodePositions_def forEach_def treeConnection_def treeMutual_def
      around_center_def alice_def alice_twin_def centerX_def centerY_def Let_def)

text \<open>
  C2, as the code has it. For the view modes \<open>'tree'\<close> and \<open>'circular'\<close> the positions
  map is a function of the view mode and the connections list alone: two evaluations
  return the same map whatever \<open>Math.random()\<close> would return. The force branch, taken for
  every other view mode, draws its angles and radii from \<open>Math.random()\<close>.
\<close>

theorem layout_deterministic_without_force:
  "vm = ''tree'' \<or> vm = ''circular'' \<Longrightarrow>
   calculateNodePositions vm cs r1 = calculateNodePositions vm cs r2"
  by (auto simp: calculateNodePositions_def)

theorem layout_deterministic_without_force_witness:
  "calculateNodePositions ''tree'' [alice, dave] random_zero
     = calculateNodePositions ''tree'' [alice, dave] random_half
   \<and> calculateNodePositions ''circular'' [alice, dave] random_zero
     = calculateNodePositions ''circular'' [alice, dave] random_half"
  using layout_deterministic_without_force [of "''tree''" "[alice, dave]" random_zero random_half]
    layout_deterministic_without_force [of "''circular''" "[alice, dave]" random_zero random_half]
  by simp

text \<open>
  C2 as stated, for every view mode, fails in the force branch: with the same view mode and
  the same single connection, draws of 0 put it at \<open>(500, 300)\<close> and draws of 1/2 put
  it at \<open>(225, 300)\<close>.
\<close>

theorem force_layout_counterexample:
  "calculateNodePositions ''force'' [alice] random_zero (NumId 1) = Some \<lparr>pos_x = 500, pos_y = 300\<rparr>
   \<and> calculateNodePositions ''force'' [alice] random_half (NumId 1) = Some \<lparr>pos_x = 225, pos_y = 300\<rparr>
   \<and> calculateNodePositions ''force'' [alice] random_zero \<noteq> calculateNodePositions ''force'' [alice] random_half"
proof -
  have a: "calculateNodePositions ''force'' [alice] random_zero (NumId 1) = Some \<lparr>pos_x = 500, pos_y = 300\<rparr>"
    by (simp add: calculateNodePositions_def forEach_def forceConnection_def around_center_def
        alice_def random_zero_def centerX_def centerY_def)
  have b: "calculateNodePositions ''force'' [alice] random_half (NumId 1) = Some \<lparr>pos_x = 225, pos_y = 300\<rparr>"
    by (simp add: calculateNodePositions_def forEach_def forceConnection_def around_center_def
        alice_def random_half_def centerX_def centerY_def)
  have "calculateNodePositions ''force'' [alice] random_zero (NumId 1)
      \<noteq> calculateNodePositions ''force'' [alice] random_half (NumId 1)"
    by (simp only: a b) simp
  then have "calculateNodePositions ''force'' [alice] random_zero \<noteq> calculateNodePositions ''force'' [alice] random_half"
    by metis
  with a b show ?thesis
    by blast
qed

text \<open>
  C3. The positions a render computes do not depend on the interaction state: two renders
  of the same props with the same \<open>Math.random()\<close> draws, differing only in zoom, pan,
  isDragging, dragStart and hoveredConnection, compute the same positions map, which is
  \<open>calculateNodePositions\<close> of the view mode and the connections.
\<close>

theorem layout_ignores_interaction_state:
  "nodePositions (step (Render r) (w\<lparr>ui := u1\<rparr>)) = nodePositions (step (Render r) (w\<lparr>ui := u2\<rparr>))
   \<and> nodePositions (step (Render r) (w\<lparr>ui := u1\<rparr>)) = calculateNodePositions (viewMode w) (connections w) r"
  by simp

text \<open>
  C10, as the code has it. For every view mode and every connections list the function
  returns a map; on the empty list no callback runs, so nothing is divided by the length,
  and the result is the single entry \<open>'user'\<close> at \<open>(400, 300)\<close>. The result always has
  the key \<open>'user'\<close> and an entry for every connection's id. When no connection has the
  id \<open>'user'\<close>, the key \<open>'user'\<close> is at \<open>(400, 300)\<close> in every view mode.
\<close>

theorem positions_hold_user_and_every_id:
  "calculateNodePositions vm [] r = Map.empty(StrId ''user'' \<mapsto> \<lparr>pos_x = 400, pos_y = 300\<rparr>)
   \<and> StrId ''user'' \<in> dom (calculateNodePositions vm cs r)
   \<and> (\<forall>c \<in> set cs. c_id c \<in> dom (calculateNodePositions vm cs r))
   \<and> (StrId ''user'' \<notin> c_id ` set cs \<longrightarrow>
        calculateNodePositions vm cs r (StrId ''user'') = Some \<lparr>pos_x = 400, pos_y = 300\<rparr>)"
  using calc_dom [of cs vm r] calc_user [of cs vm r] calc_empty [of vm r]
  by blast

theorem positions_hold_user_and_every_id_witness:
  "c_id dave \<in> dom (calculateNodePositions ''force'' [alice, dave] random_half)
   \<and> calculateNodePositions ''force'' [alice, dave] random_half (StrId ''user'')
      = Some \<lparr>pos_x = 400, pos_y = 300\<rparr>
   \<and> calculateNodePositions ''tree'' [alice, dave] random_half (StrId ''user'')
      = Some \<lparr>pos_x = 400, pos_y = 300\<rparr>"
proof -
  have "dave \<in> set [alice, dave]"
    by simp
  moreover have "StrId ''user'' \<notin> c_id ` set [alice, dave]"
    by (simp add: alice_def dave_def)
  ultimately show ?thesis
    using positions_hold_user_and_every_id [of "''force''" random_half "[alice, dave]"]
      positions_hold_user_and_every_id [of "''tree''" random_half "[alice, dave]"]
    by blast
qed

text \<open>
  C10 as stated, with \<open>'user'\<close> always at \<open>(400, 300)\<close>, fails for a connection whose
  id is the string \<open>'user'\<close>: its write replaces the central node's entry, here by
  \<open>(550, 300)\<close>.
\<close>

theorem user_id_counterexample:
  "calculateNodePositions ''tree'' [user_named] random_zero (StrId ''user'')
     = Some \<lparr>pos_x = 550, pos_y = 300\<rparr>
   \<and> calculateNodePositions ''tree'' [user_named] random_zero (StrId ''user'')
     \<noteq> Some \<lparr>pos_x = 400, pos_y = 300\<rparr>"
  by (simp add: calculateNodePositions_def forEach_def treeConnection_def around_center_def
      user_named_def centerX_def centerY_def Let_def)

section \<open>Claims about the scene and its effects\<close>

text \<open>
  C4. A node click appends one call of \<open>onNodeSelect\<close> with the clicked node. The
  scene always has the central circle, whose handler passes \<open>{ id: 'user', name: 'You' }\<close>;
  after a render in any view mode every connection has its circle, whose handler passes
  that connection; after a render in tree mode every mutual connection has its circle,
  whose handler passes that mutual object. For every \<open>onClick\<close> of the scene: when its
  element depicts a node, the handler is a node click with exactly that node, which is
  the literal, one of the connections or one of their mutual connections; when its
  element depicts none (the buttons), the handler makes no call of \<open>onNodeSelect\<close>.
\<close>

theorem node_click_selects_its_node:
  "effects (step (Click (NodeClick n)) w) = effects w @ [OnNodeSelect n]
   \<and> (UserCircle, NodeClick (PlainObj (StrId ''user'') ''You'')) \<in> set (onClickHandlers conns nodePos)
   \<and> (\<forall>c \<in> set conns. (ConnectionCircle c, NodeClick (ConnectionObj c))
          \<in> set (onClickHandlers conns (calculateNodePositions vm conns r)))
   \<and> (\<forall>c \<in> set conns. \<forall>m \<in> set (mutualsOf c). (MutualCircle c m, NodeClick (MutualObj m))
          \<in> set (onClickHandlers conns (calculateNodePositions ''tree'' conns r)))
   \<and> (\<forall>(el, a) \<in> set (onClickHandlers conns nodePos).
        case depicts el of
          Some d \<Rightarrow> a = NodeClick d
            \<and> (d = PlainObj (StrId ''user'') ''You''
               \<or> (\<exists>c \<in> set conns. d = ConnectionObj c \<or> (\<exists>m \<in> set (mutualsOf c). d = MutualObj m)))
        | None \<Rightarrow> (\<forall>x. OnNodeSelect x \<in> set (effects (perform a w)) \<longrightarrow> OnNodeSelect x \<in> set (effects w)))"
proof -
  have emit: "effects (step (Click (NodeClick n)) w) = effects w @ [OnNodeSelect n]"
    by (simp add: handleNodeClick_def)
  have user: "(UserCircle, NodeClick (PlainObj (StrId ''user'') ''You'')) \<in> set (onClickHandlers conns nodePos)"
    by (simp add: onClickHandlers_def)
  have conn: "(ConnectionCircle c, NodeClick (ConnectionObj c))
          \<in> set (onClickHandlers conns (calculateNodePositions vm conns r))" if "c \<in> set conns" for c
  proof -
    from that calc_dom [of conns vm r] have "calculateNodePositions vm conns r (c_id c) \<noteq> None"
      by auto
    with that show ?thesis
      by (rule connection_circle_rendered)
  qed
  have mut: "(MutualCircle c m, NodeClick (MutualObj m))
          \<in> set (onClickHandlers conns (calculateNodePositions ''tree'' conns r))"
    if "c \<in> set conns" and "m \<in> set (mutualsOf c)" for c m
    using that tree_mutual_key_present [OF that, of r] by (rule mutual_circle_rendered)
  have only: "case depicts el of
          Some d \<Rightarrow> a = NodeClick d
            \<and> (d = PlainObj (StrId ''user'') ''You''
               \<or> (\<exists>c \<in> set conns. d = ConnectionObj c \<or> (\<exists>m \<in> set (mutualsOf c). d = MutualObj m)))
        | None \<Rightarrow> (\<forall>x. OnNodeSelect x \<in> set (effects (perform a w)) \<longrightarrow> OnNodeSelect x \<in> set (effects w))"
    if "(el, a) \<in> set (onClickHandlers conns nodePos)" for el a
    using handlers_cases [OF that] by (elim disjE exE bexE conjE) (auto simp: handleZoom_def resetView_def)
  from emit user conn mut only show ?thesis
    by blast
qed

theorem node_click_selects_its_node_witness:
  "effects (step (Click (NodeClick (MutualObj carol))) (mount [alice, dave] ''tree''))
     = [OnNodeSelect (MutualObj carol)]
   \<and> (ConnectionCircle dave, NodeClick (ConnectionObj dave))
        \<in> set (onClickHandlers [alice, dave] (calculateNodePositions ''circular'' [alice, dave] random_zero))
   \<and> (MutualCircle alice carol, NodeClick (MutualObj carol))
        \<in> set (onClickHandlers [alice, dave] (calculateNodePositions ''tree'' [alice, dave] random_zero))
   \<and> (ExportButton, Export) \<in> set (onClickHandlers [alice, dave] Map.empty)
   \<and> OnNodeSelect (ConnectionObj alice) \<notin> set (effects (perform Export (mount [alice, dave] ''tree'')))"
proof -
  let ?w = "mount [alice, dave] ''tree''"
  note t = node_click_selects_its_node [where n = "MutualObj carol" and w = ?w
      and conns = "[alice, dave]" and nodePos = Map.empty and vm = "''circular''" and r = random_zero]
  have none: "effects ?w = []"
    by (simp add: mount_def)
  have dave: "dave \<in> set [alice, dave]" and alice: "alice \<in> set [alice, dave]"
    by simp_all
  have carol: "carol \<in> set (mutualsOf alice)"
    by (simp add: mutualsOf_def alice_def)
  have export: "(ExportButton, Export) \<in> set (onClickHandlers [alice, dave] Map.empty)"
    by (simp add: onClickHandlers_def)
  from t none have a: "effects (step (Click (NodeClick (MutualObj carol))) ?w) = [OnNodeSelect (MutualObj carol)]"
    by simp
  from t dave have b: "(ConnectionCircle dave, NodeClick (ConnectionObj dave))
        \<in> set (onClickHandlers [alice, dave] (calculateNodePositions ''circular'' [alice, dave] random_zero))"
    by blast
  from t alice carol have c: "(MutualCircle alice carol, NodeClick (MutualObj carol))
        \<in> set (onClickHandlers [alice, dave] (calculateNodePositions ''tree'' [alice, dave] random_zero))"
    by blast
  from t export have "case depicts ExportButton of
          Some d \<Rightarrow> Export = NodeClick d
            \<and> (d = PlainObj (StrId ''user'') ''You''
               \<or> (\<exists>c \<in> set [alice, dave]. d = ConnectionObj c \<or> (\<exists>m \<in> set (mutualsOf c). d = MutualObj m)))
        | None \<Rightarrow> (\<forall>x. OnNodeSelect x \<in> set (effects (perform Export ?w)) \<longrightarrow> OnNodeSelect x \<in> set (effects ?w))"
    by blast
  with none have d: "OnNodeSelect (ConnectionObj alice) \<notin> set (effects (perform Export ?w))"
    by (simp del: perform.simps)
  from a b c export d show ?thesis
    by blast
qed

text \<open>
  C7. After every sequence of events the \<open>connections\<close> and \<open>viewMode\<close> props are what
  they were. When no event of the sequence is a click on the Export button, which is the
  case for layout computation, zoom, pan, hover, node click and view reset, everything the
  component has emitted is a call of \<open>onNodeSelect\<close> or of \<open>onViewModeChange\<close>.
\<close>

theorem props_read_only_effects_are_callbacks:
  "connections (run evs w) = connections w \<and> viewMode (run evs w) = viewMode w
   \<and> ((\<forall>ev \<in> set evs. ev \<noteq> Click Export) \<longrightarrow>
        (\<exists>new. effects (run evs w) = effects w @ new \<and> list_all is_callback new))"
  using run_props [of evs w] run_effects [of evs w] by blast

theorem props_read_only_effects_are_callbacks_witness:
  "connections (run sample_session (mount [alice, dave] ''tree'')) = [alice, dave]
   \<and> (\<exists>new. effects (run sample_session (mount [alice, dave] ''tree'')) = [] @ new
         \<and> list_all is_callback new)"
proof -
  have "\<forall>ev \<in> set sample_session. ev \<noteq> Click Export"
    by (simp add: sample_session_def)
  with props_read_only_effects_are_callbacks [of sample_session "mount [alice, dave] ''tree''"]
  show ?thesis
    by (simp add: mount_def)
qed

section \<open>Claims about the interaction state\<close>

text \<open>
  C5. Each handler changes only its own state cells: \<open>handleZoom\<close> leaves pan,
  isDragging, dragStart and hoveredConnection as they are; \<open>handleMouseMove\<close>, dragging
  or not, leaves zoom, isDragging, dragStart and hoveredConnection as they are;
  \<open>handleConnectionHover\<close> sets hoveredConnection and leaves the other four; \<open>resetView\<close>
  sets zoom to 1 and pan to \<open>(0, 0)\<close> and leaves the other three.
\<close>

theorem handlers_frame:
  "(pan (handleZoom d s) = pan s \<and> isDragging (handleZoom d s) = isDragging s
     \<and> dragStart (handleZoom d s) = dragStart s
     \<and> hoveredConnection (handleZoom d s) = hoveredConnection s)
   \<and> (zoom (handleMouseMove e s) = zoom s \<and> isDragging (handleMouseMove e s) = isDragging s
     \<and> dragStart (handleMouseMove e s) = dragStart s
     \<and> hoveredConnection (handleMouseMove e s) = hoveredConnection s)
   \<and> (zoom (handleConnectionHover h s) = zoom s \<and> pan (handleConnectionHover h s) = pan s
     \<and> isDragging (handleConnectionHover h s) = isDragging s
     \<and> dragStart (handleConnectionHover h s) = dragStart s
     \<and> hoveredConnection (handleConnectionHover h s) = h)
   \<and> (zoom (resetView s) = 1 \<and> pan (resetView s) = \<lparr>pos_x = 0, pos_y = 0\<rparr>
     \<and> isDragging (resetView s) = isDragging s \<and> dragStart (resetView s) = dragStart s
     \<and> hoveredConnection (resetView s) = hoveredConnection s)"
  by (simp add: handleZoom_def handleMouseMove_def handleConnectionHover_def resetView_def)

text \<open>
  C6. A mousemove leaves pan as it is while isDragging is false, and sets it to the mouse
  position minus dragStart while isDragging is true. An event that turns isDragging from
  false to true is a mousedown; a mousedown sets isDragging and records dragStart as the
  mouse position minus the current pan; mouseup and mouseleave clear isDragging. From a
  state that is not dragging, such as the one after a mouseup or mouseleave, every
  sequence of events without a mousedown ends not dragging, and a mousemove after it
  leaves pan as it is.
\<close>

theorem pan_is_drag_gated:
  "(\<not> isDragging (ui w) \<longrightarrow> pan (ui (step (SvgMouseMove e) w)) = pan (ui w))
   \<and> (isDragging (ui w) \<longrightarrow>
        pan (ui (step (SvgMouseMove e) w)) =
          \<lparr>pos_x = clientX e - pos_x (dragStart (ui w)), pos_y = clientY e - pos_y (dragStart (ui w))\<rparr>)
   \<and> (\<not> isDragging (ui w) \<and> isDragging (ui (step ev w)) \<longrightarrow> is_mouse_down ev)
   \<and> isDragging (ui (step (SvgMouseDown e) w))
   \<and> dragStart (ui (step (SvgMouseDown e) w)) =
        \<lparr>pos_x = clientX e - pos_x (pan (ui w)), pos_y = clientY e - pos_y (pan (ui w))\<rparr>
   \<and> \<not> isDragging (ui (step SvgMouseUp w))
   \<and> \<not> isDragging (ui (step SvgMouseLeave w))
   \<and> (\<not> isDragging (ui w) \<and> (\<forall>ev \<in> set evs. \<not> is_mouse_down ev) \<longrightarrow>
        \<not> isDragging (ui (run evs w))
        \<and> pan (ui (step (SvgMouseMove e) (run evs w))) = pan (ui (run evs w)))"
proof -
  have move_idle: "pan (ui (step (SvgMouseMove e) v)) = pan (ui v)" if "\<not> isDragging (ui v)" for v
    using that by (simp add: handleMouseMove_def)
  have move_drag: "pan (ui (step (SvgMouseMove e) w)) =
          \<lparr>pos_x = clientX e - pos_x (dragStart (ui w)), pos_y = clientY e - pos_y (dragStart (ui w))\<rparr>"
    if "isDragging (ui w)"
    using that by (simp add: handleMouseMove_def)
  have only_down: "is_mouse_down ev'" if "\<not> isDragging (ui v)" and "isDragging (ui (step ev' v))" for ev' v
  proof (cases ev')
    case (Click a)
    with that show ?thesis
      by (cases a) (simp_all add: handleZoom_def resetView_def handleNodeClick_def Let_def)
  qed (use that in \<open>simp_all add: handleConnectionHover_def handleMouseMove_def handleMouseUp_def\<close>)
  have down: "isDragging (ui (step (SvgMouseDown e) w))"
    "dragStart (ui (step (SvgMouseDown e) w)) =
        \<lparr>pos_x = clientX e - pos_x (pan (ui w)), pos_y = clientY e - pos_y (pan (ui w))\<rparr>"
    by (simp_all add: handleMouseDown_def)
  have up: "\<not> isDragging (ui (step SvgMouseUp w))" "\<not> isDragging (ui (step SvgMouseLeave w))"
    by (simp_all add: handleMouseUp_def)
  have idle: "\<not> isDragging (ui (run evs' v))"
    if "\<not> isDragging (ui v)" and "\<forall>ev \<in> set evs'. \<not> is_mouse_down ev" for evs' v
    using that
  proof (induction evs' arbitrary: v)
    case Nil
    then show ?case by simp
  next
    case (Cons ev' evs')
    from Cons.prems only_down [of v ev'] have "\<not> isDragging (ui (step ev' v))"
      by auto
    with Cons.IH [of "step ev' v"] Cons.prems(2) show ?case
      by simp
  qed
  from move_idle [of w] move_drag only_down [of w ev] down up idle [of w evs]
    move_idle [of "run evs w"]
  show ?thesis
    by blast
qed

theorem pan_is_drag_gated_witness:
  "pan (ui (step (SvgMouseMove drag_to) (mount [alice] ''tree''))) = \<lparr>pos_x = 0, pos_y = 0\<rparr>
   \<and> pan (ui (step (SvgMouseMove drag_to) (step (SvgMouseDown press) (mount [alice] ''tree''))))
       = \<lparr>pos_x = 5, pos_y = 20\<rparr>
   \<and> is_mouse_down (SvgMouseDown press)
   \<and> \<not> isDragging (ui (run [SvgMouseMove drag_to, Click ResetView]
          (step SvgMouseUp (step (SvgMouseDown press) (mount [alice] ''tree'')))))
   \<and> pan (ui (step (SvgMouseMove drag_to) (run [SvgMouseMove drag_to, Click ResetView]
          (step SvgMouseUp (step (SvgMouseDown press) (mount [alice] ''tree''))))))
       = \<lparr>pos_x = 0, pos_y = 0\<rparr>"
proof -
  let ?w0 = "mount [alice] ''tree''"
  let ?w1 = "step (SvgMouseDown press) ?w0"
  let ?w2 = "step SvgMouseUp ?w1"
  let ?evs = "[SvgMouseMove drag_to, Click ResetView]"
  have idle0: "\<not> isDragging (ui ?w0)"
    by (simp add: mount_def initial_ui_def)
  have pan0: "pan (ui ?w0) = \<lparr>pos_x = 0, pos_y = 0\<rparr>"
    by (simp add: mount_def initial_ui_def)
  have drag1: "isDragging (ui ?w1)"
    by (simp add: handleMouseDown_def)
  have start1: "dragStart (ui ?w1) = \<lparr>pos_x = 10, pos_y = 20\<rparr>"
    by (simp add: handleMouseDown_def mount_def initial_ui_def press_def)
  have idle2: "\<not> isDragging (ui ?w2)"
    by (simp add: handleMouseUp_def)
  have quiet: "\<forall>ev \<in> set ?evs. \<not> is_mouse_down ev"
    by simp
  have pan2: "pan (ui (run ?evs ?w2)) = \<lparr>pos_x = 0, pos_y = 0\<rparr>"
    by (simp add: resetView_def)
  from pan_is_drag_gated [where w = ?w0 and e = drag_to and ev = "SvgMouseDown press" and evs = "[]"]
    idle0 pan0 drag1
  have a: "pan (ui (step (SvgMouseMove drag_to) ?w0)) = \<lparr>pos_x = 0, pos_y = 0\<rparr>"
    and c: "is_mouse_down (SvgMouseDown press)"
    by simp_all
  from pan_is_drag_gated [where w = ?w1 and e = drag_to and ev = SvgMouseUp and evs = "[]"]
    drag1 start1
  have b: "pan (ui (step (SvgMouseMove drag_to) ?w1)) = \<lparr>pos_x = 5, pos_y = 20\<rparr>"
    by (simp add: drag_to_def)
  from pan_is_drag_gated [where w = ?w2 and e = drag_to and ev = SvgMouseUp and evs = ?evs]
    idle2 quiet pan2
  have d: "\<not> isDragging (ui (run ?evs ?w2))"
    and e: "pan (ui (step (SvgMouseMove drag_to) (run ?evs ?w2))) = \<lparr>pos_x = 0, pos_y = 0\<rparr>"
    by simp_all
  from a b c d e show ?thesis
    by blast
qed

text \<open>
  C8. From the mounted component, whose zoom is 1, the zoom is between 0.3 and 3 after
  every sequence of events, in particular after every sequence of \<open>handleZoom('in')\<close>,
  \<open>handleZoom('out')\<close> and \<open>resetView\<close>. \<open>handleZoom('in')\<close> sets zoom to
  \<open>min(zoom * 1.2, 3)\<close>, \<open>handleZoom('out')\<close> to \<open>max(zoom / 1.2, 0.3)\<close>, and
  \<open>resetView\<close> to 1.
\<close>

theorem zoom_stays_in_range:
  "0.3 \<le> zoom (ui (run evs (mount conns mode))) \<and> zoom (ui (run evs (mount conns mode))) \<le> 3
   \<and> zoom (ui (mount conns mode)) = 1
   \<and> zoom (handleZoom ''in'' s) = min (zoom s * 1.2) 3
   \<and> zoom (handleZoom ''out'' s) = max (zoom s / 1.2) 0.3
   \<and> zoom (resetView s) = 1"
proof -
  have "0.3 \<le> zoom (ui (mount conns mode))" and "zoom (ui (mount conns mode)) \<le> 3"
    by (simp_all add: mount_def initial_ui_def)
  from run_zoom_range [OF this, of evs] show ?thesis
    by (simp add: mount_def initial_ui_def handleZoom_def resetView_def)
qed

text \<open>
  C9. \<open>getConnectionStrength\<close> returns \<open>'strong'\<close> exactly when interactions exceed 50,
  \<open>'medium'\<close> exactly when they exceed 20 and are at most 50, and \<open>'weak'\<close> otherwise,
  with a missing \<open>interactions\<close> field read as 0 and so weak. Exactly 50 is medium and
  exactly 20 is weak. The legend reads \<open>Strong (50+ interactions)\<close>,
  \<open>Medium (20-50 interactions)\<close> and \<open>Weak (<20 interactions)\<close>.
\<close>

theorem connection_strength_classification:
  "(getConnectionStrength c = ''strong'') = (interactionsOrZero c > 50)
   \<and> (getConnectionStrength c = ''medium'') = (20 < interactionsOrZero c \<and> interactionsOrZero c \<le> 50)
   \<and> (getConnectionStrength c = ''weak'') = (interactionsOrZero c \<le> 20)
   \<and> interactionsOrZero (c\<lparr>interactions := None\<rparr>) = 0
   \<and> interactionsOrZero (c\<lparr>interactions := Some v\<rparr>) = v
   \<and> getConnectionStrength (c\<lparr>interactions := None\<rparr>) = ''weak''
   \<and> getConnectionStrength (c\<lparr>interactions := Some 50\<rparr>) = ''medium''
   \<and> getConnectionStrength (c\<lparr>interactions := Some 20\<rparr>) = ''weak''
   \<and> legendLabels =
       [''Strong (50+ interactions)'', ''Medium (20-50 interactions)'', ''Weak (<20 interactions)'']"
  by (simp add: getConnectionStrength_def interactionsOrZero_def legendLabels_def Let_def)

end
